theory Spec2Isabelle
  imports Complex_Main "HOL-Library.Word"
begin

section \<open>The player of flutter\_soloud: sound registry and handle resolution\<close>

text \<open>
  A shallow embedding of \<^verbatim>\<open>src/player.h\<close> and \<^verbatim>\<open>src/player.cpp\<close>.
  The class \<^verbatim>\<open>Player\<close> owns the vector \<^verbatim>\<open>sounds\<close> of
  \<^verbatim>\<open>std::unique_ptr<ActiveSound>\<close> and talks to the SoLoud engine. The engine,
  the \<^verbatim>\<open>Wav\<close> decoder and the \<^verbatim>\<open>Speech\<close> synthesiser are collaborators
  outside this code: every value one of them returns is a parameter of the function that
  asks for it, and every call made on them is appended to a trace kept in the player.

  A \<^verbatim>\<open>unique_ptr\<close> may be null, so a slot of \<^verbatim>\<open>sounds\<close> is an
  \<open>ActiveSound option\<close>. Dereferencing a null slot is undefined behaviour in C++; a function
  that can do so returns an \<open>option\<close>, and \<open>None\<close> stands for that dereference.
  \<^verbatim>\<open>float\<close> and \<^verbatim>\<open>double\<close> values are only passed through and are
  modelled as \<open>real\<close>; vector indices are natural numbers (the \<^verbatim>\<open>int\<close>
  casts of the sizes do not overflow on vectors that fit in memory).
\<close>

subsection \<open>Data\<close>

type_synonym SoLoud_handle = "32 word"

text \<open>
  Modelled from the spec: \<^verbatim>\<open>enums.h\<close> (the enumeration PlayerErrors) and
  \<^verbatim>\<open>soloud.h\<close> (the codes of \<^verbatim>\<open>SoLoud::result\<close>) are not among the sources.
  The constructors are the codes named in \<^verbatim>\<open>Player::getErrorString\<close> and in
  \<^verbatim>\<open>Player::loadFile\<close>. The code casts an engine result to PlayerErrors
  without changing the number, so both are one type here and \<^verbatim>\<open>SO_NO_ERROR\<close> is
  \<open>noError\<close>.
\<close>

datatype PlayerErrors =
    noError
  | invalidParameter
  | fileNotFound
  | fileLoadFailed
  | dllNotFound
  | outOfMemory
  | notImplemented
  | unknownError
  | backendNotInited
  | fileAlreadyLoaded

text \<open>
  The decoded resource \<^verbatim>\<open>SoLoud::Wav\<close>, as far as the player determines it:
  freshly constructed, or asked to load a file.
\<close>

datatype Wav = Wav_new | Wav_load string

record ActiveSound =
  sound :: Wav
  completeFileName :: string
  handle :: "SoLoud_handle list"
  soundHash :: "32 word"

text \<open>The calls the player makes on its collaborators, in the order it makes them.\<close>

datatype EngineCall =
    Soloud_init
  | Soloud_deinit
  | Wav_loadCall string
  | Wav_stop Wav
  | Wav_getLength Wav
  | Soloud_play Wav real real bool
  | Soloud_play3d Wav real real real real real real real bool "32 word"
  | Soloud_stop SoLoud_handle
  | Soloud_setPause SoLoud_handle bool
  | Soloud_getPause SoLoud_handle
  | Soloud_setLooping SoLoud_handle bool
  | Soloud_seek SoLoud_handle real
  | Soloud_getStreamPosition SoLoud_handle
  | Speech_setText string
  | Soloud_playSpeech

record Player =
  sounds :: "ActiveSound option list"
  mInited :: bool
  soloud :: "EngineCall list"

text \<open>
  \<^verbatim>\<open>std::make_unique<ActiveSound>()\<close> value-initialises the struct, which has no
  constructor of its own: the members with constructors are default-constructed and
  \<^verbatim>\<open>soundHash\<close> is zero.
\<close>

definition make_ActiveSound :: ActiveSound where
  "make_ActiveSound =
     \<lparr>sound = Wav_new, completeFileName = [], handle = [], soundHash = 0\<rparr>"

text \<open>\<^verbatim>\<open>Player::Player() : mInited(false)\<close>\<close>

definition Player_new :: Player where
  "Player_new = \<lparr>sounds = [], mInited = False, soloud = []\<rparr>"

subsection \<open>Standard algorithms on the vectors\<close>

text \<open>
  \<^verbatim>\<open>std::find_if\<close>: the index of the first element the predicate accepts, the
  length of the vector for \<^verbatim>\<open>end()\<close>. The predicate may dereference a null pointer.
\<close>

fun find_if :: "('a \<Rightarrow> bool option) \<Rightarrow> 'a list \<Rightarrow> nat option" where
  "find_if p [] = Some 0"
| "find_if p (x # xs) =
     (case p x of
        None \<Rightarrow> None
      | Some True \<Rightarrow> Some 0
      | Some False \<Rightarrow> map_option Suc (find_if p xs))"

text \<open>
  The lambda \<^verbatim>\<open>f->soundHash == h\<close> on a \<^verbatim>\<open>unique_ptr<ActiveSound>\<close>.
\<close>

definition hash_is :: "32 word \<Rightarrow> ActiveSound option \<Rightarrow> bool option" where
  "hash_is h f = map_option (\<lambda>a. soundHash a = h) f"

text \<open>The lambda \<^verbatim>\<open>f == handle\<close> on an element of a handle vector.\<close>

definition handle_is :: "SoLoud_handle \<Rightarrow> SoLoud_handle \<Rightarrow> bool option" where
  "handle_is h f = Some (f = h)"

text \<open>
  \<^verbatim>\<open>std::remove_if\<close> as the standard libraries implement it: find the first
  accepted element, then move every later element that is not accepted down to the
  position \<open>result\<close>. The vector keeps its length; the function returns it with the new
  logical end. \<open>moved\<close> is what a move leaves behind in the source position: the value
  itself for an integer, the null pointer for a \<^verbatim>\<open>unique_ptr\<close>.
\<close>

function remove_if_loop ::
  "('a \<Rightarrow> bool option) \<Rightarrow> ('a \<Rightarrow> 'a) \<Rightarrow> 'a list \<Rightarrow> nat \<Rightarrow> nat \<Rightarrow> ('a list \<times> nat) option"
where
  "remove_if_loop p moved arr result first =
     (if first < length arr then
        (case p (arr ! first) of
           None \<Rightarrow> None
         | Some True \<Rightarrow> remove_if_loop p moved arr result (first + 1)
         | Some False \<Rightarrow>
             remove_if_loop p moved
               (arr[result := arr ! first, first := moved (arr ! first)])
               (result + 1) (first + 1))
      else Some (arr, result))"
  by pat_completeness auto
termination
  by (relation "measure (\<lambda>(p, moved, arr, result, first). length arr - first)") auto

declare remove_if_loop.simps [simp del]

definition remove_if ::
  "('a \<Rightarrow> bool option) \<Rightarrow> ('a \<Rightarrow> 'a) \<Rightarrow> 'a list \<Rightarrow> ('a list \<times> nat) option"
where
  "remove_if p moved arr =
     (case find_if p arr of
        None \<Rightarrow> None
      | Some first \<Rightarrow>
          if first = length arr then Some (arr, first)
          else remove_if_loop p moved arr first (first + 1))"

text \<open>
  \<^verbatim>\<open>vector::erase(pos)\<close> with one iterator removes the one element at \<open>pos\<close>;
  \<open>pos\<close> must be dereferenceable, so erasing at \<^verbatim>\<open>end()\<close> is undefined.
\<close>

definition erase :: "'a list \<Rightarrow> nat \<Rightarrow> 'a list option" where
  "erase arr pos =
     (if pos < length arr then Some (take pos arr @ drop (Suc pos) arr) else None)"

text \<open>\<^verbatim>\<open>v.erase(std::remove_if(v.begin(), v.end(), p))\<close>\<close>

definition erase_remove_if ::
  "('a \<Rightarrow> bool option) \<Rightarrow> ('a \<Rightarrow> 'a) \<Rightarrow> 'a list \<Rightarrow> 'a list option"
where
  "erase_remove_if p moved arr =
     (case remove_if p moved arr of
        None \<Rightarrow> None
      | Some (arr', pos) \<Rightarrow> erase arr' pos)"

subsection \<open>Player: life cycle and loading\<close>

text \<open>\<^verbatim>\<open>Player::dispose\<close>\<close>

definition dispose :: "Player \<Rightarrow> Player" where
  "dispose p = p\<lparr>soloud := soloud p @ [Soloud_deinit], mInited := False, sounds := []\<rparr>"

text \<open>
  \<^verbatim>\<open>Player::init\<close>; \<open>initResult\<close> is what \<^verbatim>\<open>soloud.init\<close> returns.
\<close>

definition init :: "PlayerErrors \<Rightarrow> Player \<Rightarrow> PlayerErrors \<times> Player" where
  "init initResult p =
     (let p1 = (if mInited p then dispose p else p);
          p2 = p1\<lparr>soloud := soloud p1 @ [Soloud_init]\<rparr>
      in if initResult = noError then (initResult, p2\<lparr>mInited := True\<rparr>)
         else (backendNotInited, p2))"

definition isInited :: "Player \<Rightarrow> bool" where
  "isInited p = mInited p"

definition getSoundsCount :: "Player \<Rightarrow> int" where
  "getSoundsCount p = int (length (sounds p))"

text \<open>
  \<^verbatim>\<open>Player::loadFile\<close>. \<open>hashfn\<close> is
  \<^verbatim>\<open>(unsigned int)std::hash<std::string>{}\<close>, \<open>hash\<close> the value the caller's
  variable holds on entry, \<open>loadResult\<close> what \<^verbatim>\<open>sound.load\<close> returns. The result
  is the returned code, the caller's variable on exit and the player.
\<close>

definition loadFile ::
  "(string \<Rightarrow> 32 word) \<Rightarrow> string \<Rightarrow> 32 word \<Rightarrow> PlayerErrors \<Rightarrow> Player
     \<Rightarrow> (PlayerErrors \<times> 32 word \<times> Player) option"
where
  "loadFile hashfn fileName hash loadResult p =
     (if \<not> mInited p then Some (backendNotInited, hash, p)
      else
        let newHash = hashfn fileName in
        case find_if (hash_is newHash) (sounds p) of
          None \<Rightarrow> None
        | Some s \<Rightarrow>
            if s \<noteq> length (sounds p) then Some (fileAlreadyLoaded, 0, p)
            else
              let pushed = sounds p @
                    [Some (make_ActiveSound
                       \<lparr>completeFileName := fileName, soundHash := newHash,
                        sound := Wav_load fileName\<rparr>)];
                  tr = soloud p @ [Wav_loadCall fileName]
              in if loadResult \<noteq> noError
                 then Some (loadResult, newHash, p\<lparr>sounds := pushed @ [None], soloud := tr\<rparr>)
                 else Some (loadResult, newHash, p\<lparr>sounds := pushed, soloud := tr\<rparr>))"

subsection \<open>Handle resolution\<close>

text \<open>
  The inner loop of \<^verbatim>\<open>Player::findByHandle\<close>: the first \<open>index\<close> at which the
  handle vector holds \<open>h\<close>.
\<close>

fun handle_index :: "SoLoud_handle \<Rightarrow> SoLoud_handle list \<Rightarrow> nat \<Rightarrow> nat option" where
  "handle_index h [] index = None"
| "handle_index h (x # xs) index =
     (if x = h then Some index else handle_index h xs (index + 1))"

text \<open>
  The outer loop, over the slots from position \<open>i\<close> on. The result is the returned pointer
  (the position of the sound in \<^verbatim>\<open>sounds\<close>, or \<open>None\<close> for
  \<^verbatim>\<open>nullptr\<close>) with the value left in \<^verbatim>\<open>*handleId\<close>, which starts as
  \<open>-1\<close>. Reading the handle vector of a null slot is the undefined dereference.
\<close>

fun findByHandle_loop ::
  "SoLoud_handle \<Rightarrow> ActiveSound option list \<Rightarrow> nat \<Rightarrow> (nat option \<times> int) option"
where
  "findByHandle_loop h [] i = Some (None, - 1)"
| "findByHandle_loop h (None # rest) i = None"
| "findByHandle_loop h (Some a # rest) i =
     (case handle_index h (handle a) 0 of
        Some index \<Rightarrow> Some (Some i, int index)
      | None \<Rightarrow> findByHandle_loop h rest (i + 1))"

definition findByHandle ::
  "SoLoud_handle \<Rightarrow> Player \<Rightarrow> (nat option \<times> int) option"
where
  "findByHandle h p = findByHandle_loop h (sounds p) 0"

subsection \<open>Player: playback\<close>

text \<open>
  \<^verbatim>\<open>Player::pauseSwitch\<close>; \<open>enginePaused\<close> is what
  \<^verbatim>\<open>soloud.getPause\<close> returns.
\<close>

definition pauseSwitch :: "SoLoud_handle \<Rightarrow> bool \<Rightarrow> Player \<Rightarrow> Player option" where
  "pauseSwitch h enginePaused p =
     (case findByHandle h p of
        None \<Rightarrow> None
      | Some (None, handleId) \<Rightarrow> Some p
      | Some (Some i, handleId) \<Rightarrow>
          (case sounds p ! i of
             None \<Rightarrow> None
           | Some a \<Rightarrow>
               let voice = handle a ! nat handleId in
               Some (p\<lparr>soloud := soloud p @
                        [Soloud_getPause voice, Soloud_setPause voice (\<not> enginePaused)]\<rparr>)))"

text \<open>\<^verbatim>\<open>Player::getPause\<close>\<close>

definition getPause :: "SoLoud_handle \<Rightarrow> bool \<Rightarrow> Player \<Rightarrow> (bool \<times> Player) option" where
  "getPause h enginePaused p =
     (case findByHandle h p of
        None \<Rightarrow> None
      | Some (None, handleId) \<Rightarrow> Some (False, p)
      | Some (Some i, handleId) \<Rightarrow>
          (case sounds p ! i of
             None \<Rightarrow> None
           | Some a \<Rightarrow>
               Some (enginePaused,
                     p\<lparr>soloud := soloud p @ [Soloud_getPause (handle a ! nat handleId)]\<rparr>)))"

text \<open>
  \<^verbatim>\<open>Player::play\<close>; \<open>newHandle\<close> is what \<^verbatim>\<open>soloud.play\<close> returns.
\<close>

definition play ::
  "32 word \<Rightarrow> real \<Rightarrow> real \<Rightarrow> bool \<Rightarrow> SoLoud_handle \<Rightarrow> Player
     \<Rightarrow> (SoLoud_handle \<times> Player) option"
where
  "play hash volume pan paused newHandle p =
     (case find_if (hash_is hash) (sounds p) of
        None \<Rightarrow> None
      | Some s \<Rightarrow>
          if s = length (sounds p) then Some (0, p)
          else
            (case sounds p ! s of
               None \<Rightarrow> None
             | Some a \<Rightarrow>
                 Some (newHandle,
                       p\<lparr>soloud := soloud p @ [Soloud_play (sound a) volume pan paused],
                         sounds := (sounds p)[s := Some (a\<lparr>handle := handle a @ [newHandle]\<rparr>)]\<rparr>)))"

text \<open>\<^verbatim>\<open>Player::play3d\<close>, the same with the 3d parameters.\<close>

definition play3d ::
  "32 word \<Rightarrow> real \<Rightarrow> real \<Rightarrow> real \<Rightarrow> real \<Rightarrow> real \<Rightarrow> real \<Rightarrow> real \<Rightarrow> bool \<Rightarrow> 32 word
     \<Rightarrow> SoLoud_handle \<Rightarrow> Player \<Rightarrow> (SoLoud_handle \<times> Player) option"
where
  "play3d hash aPosX aPosY aPosZ aVelX aVelY aVelZ aVolume aPaused aBus newHandle p =
     (case find_if (hash_is hash) (sounds p) of
        None \<Rightarrow> None
      | Some s \<Rightarrow>
          if s = length (sounds p) then Some (0, p)
          else
            (case sounds p ! s of
               None \<Rightarrow> None
             | Some a \<Rightarrow>
                 Some (newHandle,
                       p\<lparr>soloud := soloud p @
                           [Soloud_play3d (sound a) aPosX aPosY aPosZ aVelX aVelY aVelZ
                              aVolume aPaused aBus],
                         sounds := (sounds p)[s := Some (a\<lparr>handle := handle a @ [newHandle]\<rparr>)]\<rparr>)))"

text \<open>\<^verbatim>\<open>Player::stop\<close>\<close>

definition stop :: "SoLoud_handle \<Rightarrow> Player \<Rightarrow> Player option" where
  "stop h p =
     (case findByHandle h p of
        None \<Rightarrow> None
      | Some (None, handleId) \<Rightarrow> Some p
      | Some (Some i, handleId) \<Rightarrow>
          (case sounds p ! i of
             None \<Rightarrow> None
           | Some a \<Rightarrow>
               (case erase_remove_if (handle_is h) (\<lambda>f. f) (handle a) of
                  None \<Rightarrow> None
                | Some hs \<Rightarrow>
                    Some (p\<lparr>soloud := soloud p @ [Soloud_stop h],
                            sounds := (sounds p)[i := Some (a\<lparr>handle := hs\<rparr>)]\<rparr>))))"

text \<open>
  \<^verbatim>\<open>Player::stopSound\<close>. A \<^verbatim>\<open>unique_ptr\<close> that has been moved from is null.
\<close>

definition stopSound :: "32 word \<Rightarrow> Player \<Rightarrow> Player option" where
  "stopSound hash p =
     (case find_if (hash_is hash) (sounds p) of
        None \<Rightarrow> None
      | Some s \<Rightarrow>
          if s = length (sounds p) then Some p
          else
            (case sounds p ! s of
               None \<Rightarrow> None
             | Some a \<Rightarrow>
                 (case erase_remove_if (hash_is hash) (\<lambda>f. None) (sounds p) of
                    None \<Rightarrow> None
                  | Some v \<Rightarrow>
                      Some (p\<lparr>soloud := soloud p @ [Wav_stop (sound a)], sounds := v\<rparr>))))"

text \<open>\<^verbatim>\<open>Player::setLooping\<close>\<close>

definition setLooping :: "SoLoud_handle \<Rightarrow> bool \<Rightarrow> Player \<Rightarrow> Player" where
  "setLooping h enable p = p\<lparr>soloud := soloud p @ [Soloud_setLooping h enable]\<rparr>"

text \<open>
  \<^verbatim>\<open>Player::textToSpeech\<close>. \<open>h\<close> is the value the caller's variable holds on
  entry, \<open>setTextResult\<close> what \<^verbatim>\<open>speech.setText\<close> returns, \<open>newHandle\<close> what
  \<^verbatim>\<open>soloud.play(speech)\<close> returns.
\<close>

definition textToSpeech ::
  "string \<Rightarrow> SoLoud_handle \<Rightarrow> PlayerErrors \<Rightarrow> SoLoud_handle \<Rightarrow> Player
     \<Rightarrow> PlayerErrors \<times> SoLoud_handle \<times> Player"
where
  "textToSpeech txt h setTextResult newHandle p =
     (if \<not> mInited p then (backendNotInited, h, p)
      else
        let back = make_ActiveSound\<lparr>completeFileName := []\<rparr>;
            tr = soloud p @ [Speech_setText txt]
        in if setTextResult = noError
           then (setTextResult, newHandle,
                 p\<lparr>sounds := sounds p @ [Some (back\<lparr>handle := handle back @ [newHandle]\<rparr>)],
                   soloud := tr @ [Soloud_playSpeech]\<rparr>)
           else (setTextResult, h,
                 p\<lparr>sounds := sounds p @ [Some back] @ [None], soloud := tr\<rparr>))"

text \<open>
  \<^verbatim>\<open>Player::getLength\<close>; \<open>len\<close> is what \<^verbatim>\<open>sound.getLength\<close> returns.
\<close>

definition getLength :: "32 word \<Rightarrow> real \<Rightarrow> Player \<Rightarrow> (real \<times> Player) option" where
  "getLength hash len p =
     (case find_if (hash_is hash) (sounds p) of
        None \<Rightarrow> None
      | Some s \<Rightarrow>
          if s = length (sounds p) then Some (0, p)
          else
            (case sounds p ! s of
               None \<Rightarrow> None
             | Some a \<Rightarrow> Some (len, p\<lparr>soloud := soloud p @ [Wav_getLength (sound a)]\<rparr>)))"

text \<open>
  \<^verbatim>\<open>Player::seek\<close>; \<open>seekResult\<close> is what \<^verbatim>\<open>soloud.seek\<close> returns.
\<close>

definition seek :: "SoLoud_handle \<Rightarrow> real \<Rightarrow> PlayerErrors \<Rightarrow> Player \<Rightarrow> PlayerErrors \<times> Player" where
  "seek h time seekResult p =
     (if \<not> mInited p then (backendNotInited, p)
      else (seekResult, p\<lparr>soloud := soloud p @ [Soloud_seek h time]\<rparr>))"

text \<open>
  \<^verbatim>\<open>Player::getPosition\<close>; \<open>pos\<close> is what
  \<^verbatim>\<open>soloud.getStreamPosition\<close> returns.
\<close>

definition getPosition :: "SoLoud_handle \<Rightarrow> real \<Rightarrow> Player \<Rightarrow> real \<times> Player" where
  "getPosition h pos p = (pos, p\<lparr>soloud := soloud p @ [Soloud_getStreamPosition h]\<rparr>)"

subsection \<open>The registry before \<open>init\<close>\<close>

text \<open>
  Sounds enter the registry through \<open>loadFile\<close> and \<open>textToSpeech\<close> only, and both
  refuse to run before \<open>init\<close>: a player that is not initialised has an empty registry.
\<close>

definition registry_started :: "Player \<Rightarrow> bool" where
  "registry_started p \<longleftrightarrow> mInited p \<or> sounds p = []"

subsection \<open>Example players\<close>

text \<open>A hash function for the examples: it tells \<open>a.wav\<close> from every other name.\<close>

definition example_hash :: "string \<Rightarrow> 32 word" where
  "example_hash fileName = (if fileName = ''a.wav'' then 7 else 8)"

text \<open>
  Another hash function: the identity it gives to names other than \<open>missing.wav\<close> is 0,
  the identity of the sounds that \<open>textToSpeech\<close> creates.
\<close>

definition zero_hash :: "string \<Rightarrow> 32 word" where
  "zero_hash fileName = (if fileName = ''missing.wav'' then 8 else 0)"

text \<open>The player after a successful \<open>init\<close>.\<close>

definition started :: Player where
  "started = \<lparr>sounds = [], mInited = True, soloud = [Soloud_init]\<rparr>"

text \<open>The started player after \<open>a.wav\<close> has been loaded.\<close>

definition sound_a :: ActiveSound where
  "sound_a = \<lparr>sound = Wav_load ''a.wav'', completeFileName = ''a.wav'',
               handle = [], soundHash = 7\<rparr>"

definition loaded_a :: Player where
  "loaded_a = \<lparr>sounds = [Some sound_a], mInited = True,
                soloud = [Soloud_init, Wav_loadCall ''a.wav'']\<rparr>"

text \<open>The started player after the decoder has refused \<open>missing.wav\<close>.\<close>

definition sound_missing :: ActiveSound where
  "sound_missing = \<lparr>sound = Wav_load ''missing.wav'', completeFileName = ''missing.wav'',
                     handle = [], soundHash = 8\<rparr>"

definition failed_load :: Player where
  "failed_load = \<lparr>sounds = [Some sound_missing, None], mInited = True,
                   soloud = [Soloud_init, Wav_loadCall ''missing.wav'']\<rparr>"

text \<open>That player after a text has then been spoken, with the handle 5.\<close>

definition speech_5 :: ActiveSound where
  "speech_5 = \<lparr>sound = Wav_new, completeFileName = [], handle = [5], soundHash = 0\<rparr>"

definition failed_load_speech :: Player where
  "failed_load_speech =
     \<lparr>sounds = [Some sound_missing, None, Some speech_5], mInited = True,
      soloud = [Soloud_init, Wav_loadCall ''missing.wav'', Speech_setText ''hello'',
                Soloud_playSpeech]\<rparr>"

text \<open>The started player after the synthesiser has refused a text.\<close>

definition failed_speech :: Player where
  "failed_speech = \<lparr>sounds = [Some make_ActiveSound, None], mInited = True,
                     soloud = [Soloud_init, Speech_setText ''hello'']\<rparr>"

text \<open>
  The started player after two texts have been spoken, with the handles 1 and 2, and
  after \<open>stopSound 0\<close> on that.
\<close>

definition speech_1 :: ActiveSound where
  "speech_1 = \<lparr>sound = Wav_new, completeFileName = [], handle = [1], soundHash = 0\<rparr>"

definition speech_2 :: ActiveSound where
  "speech_2 = \<lparr>sound = Wav_new, completeFileName = [], handle = [2], soundHash = 0\<rparr>"

definition one_speech :: Player where
  "one_speech = \<lparr>sounds = [Some speech_1], mInited = True,
                  soloud = [Soloud_init, Speech_setText ''one'', Soloud_playSpeech]\<rparr>"

definition two_speeches :: Player where
  "two_speeches = \<lparr>sounds = [Some speech_1, Some speech_2], mInited = True,
                    soloud = [Soloud_init, Speech_setText ''one'', Soloud_playSpeech,
                              Speech_setText ''two'', Soloud_playSpeech]\<rparr>"

definition speech_left :: Player where
  "speech_left = \<lparr>sounds = [Some speech_2], mInited = True,
                   soloud = [Soloud_init, Speech_setText ''one'', Soloud_playSpeech,
                             Speech_setText ''two'', Soloud_playSpeech, Wav_stop Wav_new]\<rparr>"

section \<open>Properties\<close>

subsection \<open>Facts about \<open>find_if\<close>\<close>

lemma find_if_bound: "find_if p xs = Some n \<Longrightarrow> n \<le> length xs"
  by (induction xs arbitrary: n) (auto split: option.splits bool.splits)

lemma find_if_end_iff:
  "find_if p xs = Some (length xs) \<longleftrightarrow> (\<forall>x\<in>set xs. p x = Some False)"
  by (induction xs) (auto split: option.splits bool.splits dest: find_if_bound)

lemma find_if_all_rejected:
  "\<forall>x\<in>set xs. p x = Some False \<Longrightarrow> find_if p xs = Some (length xs)"
  by (simp add: find_if_end_iff)

lemma find_if_first:
  "\<forall>x\<in>set pre. p x = Some False \<Longrightarrow> p a = Some True \<Longrightarrow>
   find_if p (pre @ a # post) = Some (length pre)"
  by (induction pre) auto

lemma find_if_reaches:
  "\<forall>x\<in>set pre. p x \<noteq> None \<Longrightarrow> p a = Some True \<Longrightarrow>
   \<exists>k. find_if p (pre @ a # post) = Some k \<and> k \<le> length pre"
  by (induction pre) (auto split: option.splits bool.splits)

subsection \<open>Facts about \<open>remove_if\<close> and \<open>erase\<close>\<close>

text \<open>
  When every element from \<open>first\<close> on is rejected by the predicate, the loop moves them
  all down: the logical end is \<open>result\<close> plus their number, and the part of the vector
  before it is the old part before \<open>result\<close> followed by those elements.
\<close>

lemma remove_if_loop_rest:
  "\<forall>j. first \<le> j \<and> j < length arr \<longrightarrow> p (arr ! j) = Some False \<Longrightarrow>
   result < first \<Longrightarrow> first \<le> length arr \<Longrightarrow>
   \<exists>arr'. remove_if_loop p moved arr result first =
            Some (arr', result + (length arr - first)) \<and>
          length arr' = length arr \<and>
          take (result + (length arr - first)) arr' = take result arr @ drop first arr"
proof (induction p moved arr result first rule: remove_if_loop.induct)
  case (1 p moved arr result first)
  show ?case
  proof (cases "first < length arr")
    case False
    with "1.prems" show ?thesis by (subst remove_if_loop.simps) simp
  next
    case True
    let ?arr2 = "arr[result := arr ! first, first := moved (arr ! first)]"
    from True "1.prems" have rej: "p (arr ! first) = Some False" by simp
    have a: "\<forall>j. first + 1 \<le> j \<and> j < length ?arr2 \<longrightarrow> p (?arr2 ! j) = Some False"
      using "1.prems" by simp
    have b: "result + 1 < first + 1" using "1.prems" by simp
    have c: "first + 1 \<le> length ?arr2" using True by simp
    from "1.IH"(2) [OF True rej _ a b c]
    obtain arr' where run: "remove_if_loop p moved ?arr2 (result + 1) (first + 1) =
        Some (arr', result + 1 + (length ?arr2 - (first + 1)))"
      and len: "length arr' = length ?arr2"
      and tk: "take (result + 1 + (length ?arr2 - (first + 1))) arr' =
               take (result + 1) ?arr2 @ drop (first + 1) ?arr2"
      by auto
    have idx: "result + 1 + (length ?arr2 - (first + 1)) = result + (length arr - first)"
      using True by simp
    have t1: "take (result + 1) ?arr2 = take result arr @ [arr ! first]"
      using "1.prems" True by (simp add: take_Suc_conv_app_nth)
    have t2: "drop (first + 1) ?arr2 = drop (Suc first) arr"
      using "1.prems" by simp
    have t3: "drop first arr = arr ! first # drop (Suc first) arr"
      using True by (simp add: Cons_nth_drop_Suc)
    have step: "remove_if_loop p moved arr result first =
          remove_if_loop p moved ?arr2 (result + 1) (first + 1)"
      using True rej by (subst remove_if_loop.simps) simp
    have "remove_if_loop p moved arr result first = Some (arr', result + (length arr - first))"
      using step run idx by simp
    moreover have "length arr' = length arr" using len by simp
    moreover have "take (result + (length arr - first)) arr' = take result arr @ drop first arr"
    proof -
      from tk have "take (result + (length arr - first)) arr' =
          take (result + 1) ?arr2 @ drop (first + 1) ?arr2"
        by (simp only: idx)
      also have "\<dots> = (take result arr @ [arr ! first]) @ drop (Suc first) arr"
        by (simp only: t1 t2)
      also have "\<dots> = take result arr @ drop first arr"
        by (simp only: t3 append_assoc append_Cons append_Nil)
      finally show ?thesis .
    qed
    ultimately show ?thesis by blast
  qed
qed

text \<open>
  When exactly one element is accepted, erasing at the logical end removes that element
  and nothing else, whatever a move leaves behind.
\<close>

lemma erase_remove_if_unique:
  assumes "\<forall>x\<in>set pre. p x = Some False" and "p a = Some True"
    and "\<forall>x\<in>set post. p x = Some False"
  shows "erase_remove_if p moved (pre @ a # post) = Some (pre @ post)"
proof -
  let ?arr = "pre @ a # post"
  let ?k = "length pre"
  have fnd: "find_if p ?arr = Some ?k"
    using assms(1,2) by (rule find_if_first)
  have rest: "\<forall>j. ?k + 1 \<le> j \<and> j < length ?arr \<longrightarrow> p (?arr ! j) = Some False"
  proof (intro allI impI)
    fix j assume j: "?k + 1 \<le> j \<and> j < length ?arr"
    then have "?arr ! j = post ! (j - ?k - 1)"
      by (simp add: nth_append nth_Cons')
    moreover from j have "j - ?k - 1 < length post" by auto
    ultimately show "p (?arr ! j) = Some False"
      using assms(3) by simp
  qed
  from remove_if_loop_rest [OF rest, of ?k moved]
  obtain arr' where run: "remove_if_loop p moved ?arr ?k (?k + 1) =
        Some (arr', ?k + (length ?arr - (?k + 1)))"
    and len: "length arr' = length ?arr"
    and tk: "take (?k + (length ?arr - (?k + 1))) arr' = take ?k ?arr @ drop (?k + 1) ?arr"
    by auto
  have pos: "?k + (length ?arr - (?k + 1)) = length pre + length post" by simp
  from run pos fnd have "remove_if p moved ?arr = Some (arr', length pre + length post)"
    by (simp add: remove_if_def)
  moreover have "erase arr' (length pre + length post) = Some (pre @ post)"
    using tk len pos by (simp add: erase_def)
  ultimately show ?thesis by (simp add: erase_remove_if_def)
qed

subsection \<open>Facts about \<open>findByHandle\<close>\<close>

lemma handle_index_None: "handle_index h hs i = None \<longleftrightarrow> h \<notin> set hs"
  by (induction hs arbitrary: i) auto

lemma handle_index_first:
  "h \<notin> set hs1 \<Longrightarrow> handle_index h (hs1 @ h # hs2) i = Some (i + length hs1)"
  by (induction hs1 arbitrary: i) auto

lemma handle_index_Some:
  "handle_index h hs i = Some k \<Longrightarrow> i \<le> k \<and> k - i < length hs \<and> hs ! (k - i) = h"
proof (induction hs arbitrary: i)
  case Nil
  then show ?case by simp
next
  case (Cons x xs)
  show ?case
  proof (cases "x = h")
    case True
    with Cons.prems show ?thesis by simp
  next
    case False
    with Cons.prems have "handle_index h xs (i + 1) = Some k" by simp
    from Cons.IH [OF this] show ?thesis
      by (auto simp: nth_Cons' Suc_diff_Suc)
  qed
qed

lemma findByHandle_loop_first:
  "\<forall>f\<in>set pre. \<exists>b. f = Some b \<and> h \<notin> set (handle b) \<Longrightarrow>
   handle a = hs1 @ h # hs2 \<Longrightarrow> h \<notin> set hs1 \<Longrightarrow>
   findByHandle_loop h (pre @ Some a # post) i = Some (Some (i + length pre), int (length hs1))"
proof (induction pre arbitrary: i)
  case Nil
  then show ?case by (simp add: handle_index_first)
next
  case (Cons f pre)
  from Cons.prems(1) obtain b where b: "f = Some b" "h \<notin> set (handle b)" by auto
  then have "handle_index h (handle b) 0 = None" by (simp add: handle_index_None)
  with b Cons show ?case by simp
qed

lemma findByHandle_loop_none:
  "\<forall>f\<in>set xs. \<exists>b. f = Some b \<and> h \<notin> set (handle b) \<Longrightarrow>
   findByHandle_loop h xs i = Some (None, - 1)"
proof (induction xs arbitrary: i)
  case Nil
  then show ?case by simp
next
  case (Cons f xs)
  from Cons.prems obtain b where b: "f = Some b" "h \<notin> set (handle b)" by auto
  then have "handle_index h (handle b) 0 = None" by (simp add: handle_index_None)
  with b Cons show ?case by simp
qed

lemma findByHandle_loop_sound:
  "findByHandle_loop h xs i = Some (Some s, k) \<Longrightarrow>
   i \<le> s \<and> s - i < length xs \<and>
   (\<exists>a. xs ! (s - i) = Some a \<and> 0 \<le> k \<and> nat k < length (handle a) \<and> handle a ! nat k = h)"
proof (induction h xs i rule: findByHandle_loop.induct)
  case (1 h i)
  then show ?case by simp
next
  case (2 h rest i)
  then show ?case by simp
next
  case (3 h a rest i)
  show ?case
  proof (cases "handle_index h (handle a) 0")
    case None
    with "3.prems" have "findByHandle_loop h rest (i + 1) = Some (Some s, k)" by simp
    from "3.IH" [OF None this] show ?thesis
      by (auto simp: nth_Cons' Suc_diff_Suc)
  next
    case (Some index)
    with "3.prems" have "s = i" "k = int index" by simp_all
    with handle_index_Some [OF Some] show ?thesis by simp
  qed
qed

lemma findByHandle_loop_miss_iff:
  "findByHandle_loop h xs i = Some (None, k) \<longleftrightarrow>
   k = - 1 \<and> (\<forall>f\<in>set xs. \<exists>b. f = Some b \<and> h \<notin> set (handle b))"
proof (induction h xs i rule: findByHandle_loop.induct)
  case (1 h i)
  then show ?case by auto
next
  case (2 h rest i)
  then show ?case by simp
next
  case (3 h a rest i)
  show ?case
  proof (cases "handle_index h (handle a) 0")
    case None
    then have "h \<notin> set (handle a)" by (simp add: handle_index_None)
    with None "3.IH" [OF None] show ?thesis by simp
  next
    case (Some index)
    then have "h \<in> set (handle a)"
      using handle_index_None [of h "handle a" 0] by auto
    with Some show ?thesis by auto
  qed
qed

lemma findByHandle_loop_cong:
  "list_all2 (rel_option (\<lambda>a b. (h \<in> set (handle a)) = (h \<in> set (handle b)))) xs ys \<Longrightarrow>
   map_option fst (findByHandle_loop h xs i) = map_option fst (findByHandle_loop h ys i)"
proof (induction xs ys arbitrary: i rule: list_all2_induct)
  case Nil
  then show ?case by simp
next
  case (Cons f xs g ys)
  show ?case
  proof (cases f)
    case None
    with Cons.hyps(1) have "g = None" by (cases g) simp_all
    with None show ?thesis by simp
  next
    case (Some a)
    with Cons.hyps(1) obtain b where g: "g = Some b"
      and mem: "(h \<in> set (handle a)) = (h \<in> set (handle b))"
      by (cases g) simp_all
    show ?thesis
    proof (cases "h \<in> set (handle a)")
      case True
      then obtain ka where ka: "handle_index h (handle a) 0 = Some ka"
        using handle_index_None [of h "handle a" 0] by auto
      from True mem obtain kb where kb: "handle_index h (handle b) 0 = Some kb"
        using handle_index_None [of h "handle b" 0] by auto
      from ka kb Some g show ?thesis by simp
    next
      case False
      with mem have "handle_index h (handle a) 0 = None" "handle_index h (handle b) 0 = None"
        by (simp_all add: handle_index_None)
      with Some g Cons.IH show ?thesis by simp
    qed
  qed
qed

lemma findByHandle_loop_total:
  "\<forall>f\<in>set xs. f \<noteq> None \<Longrightarrow> findByHandle_loop h xs i \<noteq> None"
proof (induction h xs i rule: findByHandle_loop.induct)
  case (1 h i)
  then show ?case by simp
next
  case (2 h rest i)
  then show ?case by simp
next
  case (3 h a rest i)
  then show ?case by (cases "handle_index h (handle a) 0") simp_all
qed

lemma findByHandle_resolves:
  assumes "\<forall>f\<in>set (sounds p). f \<noteq> None"
  shows "(\<exists>a. Some a \<in> set (sounds p) \<and> h \<in> set (handle a)) \<longrightarrow>
           (\<exists>s k a. findByHandle h p = Some (Some s, k) \<and> s < length (sounds p) \<and>
              sounds p ! s = Some a \<and> 0 \<le> k \<and> nat k < length (handle a) \<and>
              handle a ! nat k = h)"
    and "(\<not> (\<exists>a. Some a \<in> set (sounds p) \<and> h \<in> set (handle a))) \<longleftrightarrow>
           findByHandle h p = Some (None, - 1)"
proof -
  have miss: "findByHandle h p = Some (None, k) \<longleftrightarrow>
      k = - 1 \<and> (\<forall>f\<in>set (sounds p). \<exists>b. f = Some b \<and> h \<notin> set (handle b))" for k
    unfolding findByHandle_def by (rule findByHandle_loop_miss_iff)
  have free: "(\<forall>f\<in>set (sounds p). \<exists>b. f = Some b \<and> h \<notin> set (handle b)) \<longleftrightarrow>
      \<not> (\<exists>a. Some a \<in> set (sounds p) \<and> h \<in> set (handle a))"
    using assms by auto
  show "(\<not> (\<exists>a. Some a \<in> set (sounds p) \<and> h \<in> set (handle a))) \<longleftrightarrow>
           findByHandle h p = Some (None, - 1)"
    using miss [of "- 1"] free by simp
  show "(\<exists>a. Some a \<in> set (sounds p) \<and> h \<in> set (handle a)) \<longrightarrow>
           (\<exists>s k a. findByHandle h p = Some (Some s, k) \<and> s < length (sounds p) \<and>
              sounds p ! s = Some a \<and> 0 \<le> k \<and> nat k < length (handle a) \<and>
              handle a ! nat k = h)"
  proof
    assume ex: "\<exists>a. Some a \<in> set (sounds p) \<and> h \<in> set (handle a)"
    from findByHandle_loop_total [OF assms, of h 0]
    obtain r k where r: "findByHandle h p = Some (r, k)"
      by (auto simp: findByHandle_def)
    have "r \<noteq> None"
    proof
      assume "r = None"
      with r miss [of k] free ex show False by simp
    qed
    then obtain s where s: "findByHandle h p = Some (Some s, k)"
      using r by auto
    from findByHandle_loop_sound [of h "sounds p" 0 s k] s
    show "\<exists>s k a. findByHandle h p = Some (Some s, k) \<and> s < length (sounds p) \<and>
              sounds p ! s = Some a \<and> 0 \<le> k \<and> nat k < length (handle a) \<and>
              handle a ! nat k = h"
      by (auto simp: findByHandle_def)
  qed
qed

text \<open>
  Two registries that agree, slot by slot, on which sounds list \<open>h\<close> resolve \<open>h\<close>
  to the same slot.
\<close>

lemma findByHandle_keeps_others:
  assumes "h' \<noteq> h" and "handle a = hs1 @ h # hs2"
  shows "map_option fst (findByHandle_loop h' (pre @ Some (a\<lparr>handle := hs1 @ hs2\<rparr>) # post) i) =
         map_option fst (findByHandle_loop h' (pre @ Some a # post) i)"
proof (rule findByHandle_loop_cong)
  let ?R = "rel_option (\<lambda>a b. (h' \<in> set (handle a)) = (h' \<in> set (handle b)))"
  have refl: "list_all2 ?R xs xs" for xs
    by (rule list_all2_refl) (simp add: option.rel_refl)
  have "?R (Some (a\<lparr>handle := hs1 @ hs2\<rparr>)) (Some a)"
    using assms by auto
  then show "list_all2 ?R (pre @ Some (a\<lparr>handle := hs1 @ hs2\<rparr>) # post) (pre @ Some a # post)"
    by (intro list_all2_appendI list.rel_intros refl)
qed

subsection \<open>The registry is empty until \<open>init\<close> has succeeded\<close>

lemma registry_started_new: "registry_started Player_new"
  by (simp add: registry_started_def Player_new_def)

lemma registry_started_init: "registry_started p \<Longrightarrow> registry_started (snd (init r p))"
  by (auto simp: registry_started_def init_def dispose_def Let_def)

lemma registry_started_dispose: "registry_started (dispose p)"
  by (simp add: registry_started_def dispose_def)

lemma registry_started_loadFile:
  "registry_started p \<Longrightarrow> loadFile hashfn f h r p = Some (e, h', p') \<Longrightarrow> registry_started p'"
  by (auto simp: registry_started_def loadFile_def Let_def split: if_splits option.splits)

lemma registry_started_textToSpeech:
  "registry_started p \<Longrightarrow> registry_started (snd (snd (textToSpeech txt h r nh p)))"
  by (auto simp: registry_started_def textToSpeech_def Let_def)

lemma registry_started_play:
  "registry_started p \<Longrightarrow> play hash v pan paused nh p = Some (h, p') \<Longrightarrow> registry_started p'"
  by (auto simp: registry_started_def play_def split: if_splits option.splits)

lemma registry_started_play3d:
  "registry_started p \<Longrightarrow>
   play3d hash x y z vx vy vz v paused bus nh p = Some (h, p') \<Longrightarrow> registry_started p'"
  by (auto simp: registry_started_def play3d_def split: if_splits option.splits)

lemma registry_started_stop:
  "registry_started p \<Longrightarrow> stop h p = Some p' \<Longrightarrow> registry_started p'"
  by (auto simp: registry_started_def stop_def findByHandle_def
      split: if_splits option.splits prod.splits)

lemma registry_started_stopSound:
  "registry_started p \<Longrightarrow> stopSound hash p = Some p' \<Longrightarrow> registry_started p'"
  by (auto simp: registry_started_def stopSound_def split: if_splits option.splits)



section \<open>The claims\<close>

subsection \<open>Loading\<close>

text \<open>
  What a load that the decoder fails does, on any initialised player whose slots hold
  sounds with other identities: it returns the decoder's code, and the registry has two
  slots more, the new sound and an empty slot.
\<close>

lemma loadFile_failure:
  assumes "mInited p"
    and "\<forall>f\<in>set (sounds p). hash_is (hashfn fileName) f = Some False"
    and "r \<noteq> noError"
  shows "\<exists>p'. loadFile hashfn fileName h r p = Some (r, hashfn fileName, p') \<and>
           sounds p' = sounds p @
             [Some \<lparr>sound = Wav_load fileName, completeFileName = fileName, handle = [],
                    soundHash = hashfn fileName\<rparr>, None] \<and>
           getSoundsCount p' = getSoundsCount p + 2"
proof -
  from assms(2) have "find_if (hash_is (hashfn fileName)) (sounds p) = Some (length (sounds p))"
    by (rule find_if_all_rejected)
  with assms(1,3) show ?thesis
    by (simp add: loadFile_def Let_def make_ActiveSound_def getSoundsCount_def)
qed

text \<open>
  C1. Claim: for a path whose identity is not registered, a load that the decoder fails
  returns the decoder's code unchanged and leaves the registry exactly as it was, with the
  same count. The code returns the decoder's code, but it pushes the new sound before it
  asks the decoder, and on failure it appends one more, empty slot instead of taking the
  sound back. On the player just started, where the count is 0, the refused load of
  \<open>missing.wav\<close> leaves the sound and an empty slot, and the count is 2.
\<close>

theorem loadFile_failure_keeps_entries:
  "init noError Player_new = (noError, started) \<and>
   getSoundsCount started = 0 \<and>
   loadFile example_hash ''missing.wav'' 0 fileNotFound started =
     Some (fileNotFound, 8, failed_load) \<and>
   sounds failed_load = [Some sound_missing, None] \<and>
   getSoundsCount failed_load = 2"
  by (simp add: init_def Player_new_def started_def loadFile_def hash_is_def example_hash_def
        make_ActiveSound_def failed_load_def sound_missing_def getSoundsCount_def)

text \<open>What a load that returns \<open>noError\<close> has done.\<close>

lemma loadFile_noError:
  assumes "loadFile hashfn fileName h0 r1 p = Some (noError, h1, p1)"
  shows "mInited p"
    and "find_if (hash_is (hashfn fileName)) (sounds p) = Some (length (sounds p))"
    and "p1 = p\<lparr>sounds := sounds p @
            [Some (make_ActiveSound\<lparr>completeFileName := fileName,
               soundHash := hashfn fileName, sound := Wav_load fileName\<rparr>)],
          soloud := soloud p @ [Wav_loadCall fileName]\<rparr>"
    and "h1 = hashfn fileName"
proof -
  show inited: "mInited p"
  proof (rule ccontr)
    assume "\<not> mInited p"
    with assms show False by (simp add: loadFile_def)
  qed
  obtain s where s: "find_if (hash_is (hashfn fileName)) (sounds p) = Some s"
    using assms inited by (cases "find_if (hash_is (hashfn fileName)) (sounds p)")
      (simp_all add: loadFile_def)
  have "s = length (sounds p)"
  proof (rule ccontr)
    assume "s \<noteq> length (sounds p)"
    with assms inited s show False by (simp add: loadFile_def)
  qed
  with s show fnd: "find_if (hash_is (hashfn fileName)) (sounds p) = Some (length (sounds p))"
    by simp
  have r1: "r1 = noError"
  proof (rule ccontr)
    assume "r1 \<noteq> noError"
    with assms inited fnd show False by (simp add: loadFile_def Let_def)
  qed
  from assms inited fnd r1 show "p1 = p\<lparr>sounds := sounds p @
            [Some (make_ActiveSound\<lparr>completeFileName := fileName,
               soundHash := hashfn fileName, sound := Wav_load fileName\<rparr>)],
          soloud := soloud p @ [Wav_loadCall fileName]\<rparr>"
    by (auto simp add: loadFile_def Let_def)
  from assms inited fnd r1 show "h1 = hashfn fileName"
    by (simp add: loadFile_def Let_def)
qed

text \<open>
  C2. After a load of a path has returned \<open>noError\<close>, a second load of the same path
  returns \<open>fileAlreadyLoaded\<close> and hands back the player it was given: no second sound,
  no change to the first one, the same count. Exactly one slot of the registry then holds a
  sound with the identity of the path. This holds whatever the caller's variable held and
  whatever the decoder would have answered, since the second load does not ask it.
\<close>

theorem loadFile_twice:
  assumes "loadFile hashfn fileName h0 r1 p = Some (noError, h1, p1)"
  shows "loadFile hashfn fileName h2 r2 p1 = Some (fileAlreadyLoaded, 0, p1) \<and>
         length (filter (\<lambda>f. hash_is (hashfn fileName) f = Some True) (sounds p1)) = 1 \<and>
         h1 = hashfn fileName"
proof -
  let ?h = "hashfn fileName"
  let ?new = "Some (make_ActiveSound\<lparr>completeFileName := fileName, soundHash := ?h,
                      sound := Wav_load fileName\<rparr>)"
  note facts = loadFile_noError [OF assms]
  have p1: "sounds p1 = sounds p @ [?new]" "mInited p1"
    using facts(1) by (simp_all add: facts(3))
  from facts(2) have others: "\<forall>f\<in>set (sounds p). hash_is ?h f = Some False"
    by (simp add: find_if_end_iff)
  have new: "hash_is ?h ?new = Some True"
    by (simp add: hash_is_def)
  have "find_if (hash_is ?h) (sounds p @ ?new # []) = Some (length (sounds p))"
    using others new by (rule find_if_first)
  then have second: "loadFile hashfn fileName h2 r2 p1 = Some (fileAlreadyLoaded, 0, p1)"
    using p1 by (simp add: loadFile_def)
  have "filter (\<lambda>f. hash_is ?h f = Some True) (sounds p) = []"
    using others by (simp add: filter_empty_conv)
  then have one: "length (filter (\<lambda>f. hash_is ?h f = Some True) (sounds p1)) = 1"
    using new by (simp add: p1)
  from second one facts(4) show ?thesis by simp
qed

theorem loadFile_twice_witness:
  "loadFile example_hash ''a.wav'' 0 noError started = Some (noError, 7, loaded_a) \<and>
   loadFile example_hash ''a.wav'' 9 fileNotFound loaded_a =
     Some (fileAlreadyLoaded, 0, loaded_a) \<and>
   length (filter (\<lambda>f. hash_is 7 f = Some True) (sounds loaded_a)) = 1"
proof -
  have first: "loadFile example_hash ''a.wav'' 0 noError started = Some (noError, 7, loaded_a)"
    by (simp add: loadFile_def started_def loaded_a_def sound_a_def hash_is_def
          example_hash_def make_ActiveSound_def)
  from loadFile_twice [OF first, of 9 fileNotFound] first show ?thesis
    by (simp add: example_hash_def)
qed

text \<open>
  On an initialised player, a load of a path whose identity is held by a sound that the
  search reaches (the slots before it hold sounds) returns \<open>fileAlreadyLoaded\<close> and
  leaves the caller's identity variable at zero, not at the identity of that sound; the
  player is unchanged.
\<close>

lemma loadFile_already_loaded:
  assumes "mInited p"
    and "sounds p = pre @ Some a # post"
    and "\<forall>f\<in>set pre. f \<noteq> None"
    and "soundHash a = hashfn fileName"
  shows "loadFile hashfn fileName h r p = Some (fileAlreadyLoaded, 0, p)"
proof -
  have "\<forall>f\<in>set pre. hash_is (hashfn fileName) f \<noteq> None"
    using assms(3) by (auto simp: hash_is_def)
  moreover have "hash_is (hashfn fileName) (Some a) = Some True"
    using assms(4) by (simp add: hash_is_def)
  ultimately have "\<exists>k. find_if (hash_is (hashfn fileName)) (pre @ Some a # post) = Some k
      \<and> k \<le> length pre"
    by (rule find_if_reaches)
  then obtain k where "find_if (hash_is (hashfn fileName)) (sounds p) = Some k"
    and "k \<noteq> length (sounds p)"
    using assms(2) by auto
  then show ?thesis
    using assms(1) by (simp add: loadFile_def)
qed

text \<open>
  C9. Claim: when load is called for a path whose identity is already registered, the
  result is \<open>fileAlreadyLoaded\<close> and the caller's identity variable is left at zero.
  This holds when the search reaches the registered sound (\<open>loadFile_already_loaded\<close>).
  After a refused load and a spoken text, the speech sound, whose identity is 0, is
  registered behind the empty slot: the load of a path with the identity 0 runs into that
  slot and dereferences the null pointer before it reaches the sound.
\<close>

theorem loadFile_behind_empty_slot:
  "init noError Player_new = (noError, started) \<and>
   loadFile zero_hash ''missing.wav'' 0 fileNotFound started =
     Some (fileNotFound, 8, failed_load) \<and>
   textToSpeech ''hello'' 0 noError 5 failed_load = (noError, 5, failed_load_speech) \<and>
   sounds failed_load_speech = [Some sound_missing, None, Some speech_5] \<and>
   soundHash speech_5 = zero_hash ''x.wav'' \<and>
   loadFile zero_hash ''x.wav'' 9 noError failed_load_speech = None"
  by (simp add: init_def Player_new_def loadFile_def started_def zero_hash_def hash_is_def
        textToSpeech_def failed_load_def failed_load_speech_def speech_5_def
        sound_missing_def make_ActiveSound_def)

subsection \<open>Text to speech\<close>

text \<open>
  When the synthesiser accepts the text, one new sound is appended: it has no file name,
  its identity is zero, and its handle vector holds exactly the handle the engine returned,
  which is also handed to the caller. No search precedes it.
\<close>

lemma textToSpeech_success:
  assumes "mInited p"
  shows "textToSpeech txt h noError newHandle p =
           (noError, newHandle,
            p\<lparr>sounds := sounds p @
                 [Some \<lparr>sound = Wav_new, completeFileName = [], handle = [newHandle],
                        soundHash = 0\<rparr>],
              soloud := soloud p @ [Speech_setText txt, Soloud_playSpeech]\<rparr>)"
  using assms by (simp add: textToSpeech_def make_ActiveSound_def)

text \<open>
  When the synthesiser refuses the text, the new sound stays and an empty slot follows it.
\<close>

lemma textToSpeech_failure:
  assumes "mInited p" and "r \<noteq> noError"
  shows "textToSpeech txt h r newHandle p =
           (r, h,
            p\<lparr>sounds := sounds p @
                 [Some \<lparr>sound = Wav_new, completeFileName = [], handle = [], soundHash = 0\<rparr>,
                  None],
              soloud := soloud p @ [Speech_setText txt]\<rparr>)"
  using assms by (simp add: textToSpeech_def make_ActiveSound_def)

text \<open>
  C7. Claim: when the synthesiser succeeds, \<open>textToSpeech\<close> registers exactly one new
  anonymous sound whose handle vector is the returned handle alone (that part is
  \<open>textToSpeech_success\<close>); when it fails, the call returns the synthesiser's code and the
  anonymous sound stays registered without handles, the registry growing by exactly one
  entry. On failure the code returns the synthesiser's code and keeps the sound, but it
  also appends an empty slot, as \<open>loadFile\<close> does: on the player just started the count
  goes from 0 to 2.
\<close>

theorem textToSpeech_failure_keeps_entries:
  "init noError Player_new = (noError, started) \<and>
   getSoundsCount started = 0 \<and>
   textToSpeech ''hello'' 0 invalidParameter 5 started = (invalidParameter, 0, failed_speech) \<and>
   sounds failed_speech = [Some make_ActiveSound, None] \<and>
   getSoundsCount failed_speech = 2"
  by (simp add: init_def Player_new_def textToSpeech_def started_def failed_speech_def
        getSoundsCount_def make_ActiveSound_def)

subsection \<open>Handle resolution and misses\<close>

text \<open>
  On a registry whose slots all hold sounds, \<open>findByHandle\<close> returns a sound and an
  index at which that sound lists the handle whenever some sound lists it, and returns
  the null pointer, with \<open>-1\<close>, exactly when none does (\<open>findByHandle_resolves\<close>).
  On such a registry a miss leaves the player as it was:
\<close>

lemma miss_without_empty_slot:
  "\<forall>f\<in>set (sounds p). hash_is hash f = Some False \<Longrightarrow>
     play hash volume pan paused newHandle p = Some (0, p) \<and>
     play3d hash aPosX aPosY aPosZ aVelX aVelY aVelZ aVolume aPaused aBus newHandle p =
       Some (0, p) \<and>
     getLength hash len p = Some (0, p)"
  "\<forall>f\<in>set (sounds p). \<exists>b. f = Some b \<and> h \<notin> set (handle b) \<Longrightarrow> stop h p = Some p"
proof -
  assume "\<forall>f\<in>set (sounds p). hash_is hash f = Some False"
  then have "find_if (hash_is hash) (sounds p) = Some (length (sounds p))"
    by (rule find_if_all_rejected)
  then show "play hash volume pan paused newHandle p = Some (0, p) \<and>
     play3d hash aPosX aPosY aPosZ aVelX aVelY aVelZ aVolume aPaused aBus newHandle p =
       Some (0, p) \<and>
     getLength hash len p = Some (0, p)"
    by (simp add: play_def play3d_def getLength_def)
next
  assume "\<forall>f\<in>set (sounds p). \<exists>b. f = Some b \<and> h \<notin> set (handle b)"
  then have "findByHandle h p = Some (None, - 1)"
    unfolding findByHandle_def by (rule findByHandle_loop_none)
  then show "stop h p = Some p"
    by (simp add: stop_def)
qed

text \<open>
  C6. Claim: for every registry state, \<open>play\<close> on an identity that no sound has returns
  the handle 0 and leaves the registry unchanged without an engine call, \<open>stop\<close> on a
  handle that no sound lists leaves the registry unchanged, and \<open>getLength\<close> on an
  identity that no sound has returns 0.0. This holds while every slot holds a sound
  (\<open>miss_without_empty_slot\<close>). After a refused load the registry has an empty slot, and
  each of the three searches runs into it and dereferences the null pointer.
\<close>

theorem miss_after_failed_load:
  "init noError Player_new = (noError, started) \<and>
   loadFile example_hash ''missing.wav'' 0 fileNotFound started =
     Some (fileNotFound, 8, failed_load) \<and>
   sounds failed_load = [Some sound_missing, None] \<and>
   play 99 1 0 False 5 failed_load = None \<and>
   stop 5 failed_load = None \<and>
   getLength 99 3 failed_load = None"
  by (simp add: init_def Player_new_def loadFile_def started_def failed_load_def
        sound_missing_def example_hash_def make_ActiveSound_def hash_is_def play_def stop_def
        getLength_def findByHandle_def)

text \<open>
  C8. Claim: \<open>findByHandle\<close> returns a sound and an index at which the sound lists the
  handle whenever some registered sound lists it, and returns not-found exactly when none
  does. This holds while every slot holds a sound (\<open>findByHandle_resolves\<close>). After a
  refused load the registry has an empty slot: a handle listed by a sound behind that
  slot, here the handle 5 of a spoken text, and a handle listed nowhere, here 6, both lead
  the scan into the null pointer.
\<close>

theorem findByHandle_after_failed_load:
  "init noError Player_new = (noError, started) \<and>
   loadFile example_hash ''missing.wav'' 0 fileNotFound started =
     Some (fileNotFound, 8, failed_load) \<and>
   sounds failed_load = [Some sound_missing, None] \<and>
   findByHandle 6 failed_load = None \<and>
   textToSpeech ''hello'' 0 noError 5 failed_load = (noError, 5, failed_load_speech) \<and>
   sounds failed_load_speech = [Some sound_missing, None, Some speech_5] \<and>
   handle speech_5 = [5] \<and>
   findByHandle 5 failed_load_speech = None"
  by (simp add: init_def Player_new_def loadFile_def started_def example_hash_def hash_is_def
        textToSpeech_def failed_load_def failed_load_speech_def speech_5_def
        sound_missing_def make_ActiveSound_def findByHandle_def)

subsection \<open>Playing\<close>

text \<open>
  For an identity held by a sound that the search reaches (the slots before it hold
  sounds with other identities), \<open>play\<close> and \<open>play3d\<close> append to that sound's handle
  vector the very value the engine returned and return it, whatever the value. In
  particular, when the engine returns 0, \<open>play\<close> returns 0 and the registry has changed.
\<close>

lemma play_appends_engine_handle:
  assumes "sounds p = pre @ Some a # post"
    and "\<forall>f\<in>set pre. hash_is hash f = Some False"
    and "soundHash a = hash"
  shows "play hash volume pan paused newHandle p =
           Some (newHandle,
                 p\<lparr>soloud := soloud p @ [Soloud_play (sound a) volume pan paused],
                   sounds := pre @ Some (a\<lparr>handle := handle a @ [newHandle]\<rparr>) # post\<rparr>) \<and>
         play3d hash aPosX aPosY aPosZ aVelX aVelY aVelZ aVolume aPaused aBus newHandle p =
           Some (newHandle,
                 p\<lparr>soloud := soloud p @
                     [Soloud_play3d (sound a) aPosX aPosY aPosZ aVelX aVelY aVelZ aVolume
                        aPaused aBus],
                   sounds := pre @ Some (a\<lparr>handle := handle a @ [newHandle]\<rparr>) # post\<rparr>) \<and>
         (\<exists>p'. play hash volume pan paused 0 p = Some (0, p') \<and> sounds p' \<noteq> sounds p)"
proof -
  have "hash_is hash (Some a) = Some True"
    using assms(3) by (simp add: hash_is_def)
  with assms(2) have fnd: "find_if (hash_is hash) (sounds p) = Some (length pre)"
    unfolding assms(1) by (rule find_if_first)
  have slot: "sounds p ! length pre = Some a" "length pre \<noteq> length (sounds p)"
    by (simp_all add: assms(1))
  have upd: "(sounds p)[length pre := x] = pre @ x # post" for x
    by (simp add: assms(1))
  have pl: "play hash volume pan paused nh p =
           Some (nh, p\<lparr>soloud := soloud p @ [Soloud_play (sound a) volume pan paused],
                   sounds := pre @ Some (a\<lparr>handle := handle a @ [nh]\<rparr>) # post\<rparr>)" for nh
    using fnd slot by (simp add: play_def upd)
  have pl3: "play3d hash aPosX aPosY aPosZ aVelX aVelY aVelZ aVolume aPaused aBus newHandle p =
           Some (newHandle,
                 p\<lparr>soloud := soloud p @
                     [Soloud_play3d (sound a) aPosX aPosY aPosZ aVelX aVelY aVelZ aVolume
                        aPaused aBus],
                   sounds := pre @ Some (a\<lparr>handle := handle a @ [newHandle]\<rparr>) # post\<rparr>)"
    using fnd slot by (simp add: play3d_def upd)
  have "a\<lparr>handle := handle a @ [0]\<rparr> \<noteq> a"
  proof
    assume "a\<lparr>handle := handle a @ [0]\<rparr> = a"
    then have "handle (a\<lparr>handle := handle a @ [0]\<rparr>) = handle a" by simp
    then show False by simp
  qed
  then have "pre @ Some (a\<lparr>handle := handle a @ [0]\<rparr>) # post \<noteq> sounds p"
    by (simp add: assms(1))
  with pl [of 0] have "\<exists>p'. play hash volume pan paused 0 p = Some (0, p') \<and> sounds p' \<noteq> sounds p"
    by simp
  with pl [of newHandle] pl3 show ?thesis by blast
qed

text \<open>
  C10. Claim: for every identity with a registered sound, \<open>play\<close> and \<open>play3d\<close>
  append to that sound's handle vector exactly the value the engine returns, unchecked,
  and return it. This holds when the search reaches the sound
  (\<open>play_appends_engine_handle\<close>). After a refused load and a spoken text, the identity 0
  has a registered sound behind the empty slot: \<open>play\<close> and \<open>play3d\<close> on it run into
  that slot and dereference the null pointer, so that the engine is not called and nothing
  is appended.
\<close>

theorem play_behind_empty_slot:
  "init noError Player_new = (noError, started) \<and>
   loadFile example_hash ''missing.wav'' 0 fileNotFound started =
     Some (fileNotFound, 8, failed_load) \<and>
   textToSpeech ''hello'' 0 noError 5 failed_load = (noError, 5, failed_load_speech) \<and>
   sounds failed_load_speech = [Some sound_missing, None, Some speech_5] \<and>
   soundHash speech_5 = 0 \<and>
   play 0 1 0 False 6 failed_load_speech = None \<and>
   play3d 0 1 2 3 0 0 0 1 False 0 6 failed_load_speech = None"
  by (simp add: init_def Player_new_def loadFile_def started_def example_hash_def hash_is_def
        textToSpeech_def failed_load_def failed_load_speech_def speech_5_def
        sound_missing_def make_ActiveSound_def play_def play3d_def)

subsection \<open>Stopping a handle\<close>

text \<open>
  Let a registered sound list \<open>h\<close> exactly once, and let the slots before it hold sounds
  that do not list \<open>h\<close>. Then \<open>stop h\<close> tells the engine to stop \<open>h\<close> and removes
  that one entry: the vector is shorter by one and the other entries keep their order.
  The sound stays registered, also when the vector becomes empty; the other slots and the
  count are unchanged; and every other handle resolves to the same slot as before.
\<close>

lemma stop_removes_entry:
  assumes "sounds p = pre @ Some a # post"
    and "\<forall>f\<in>set pre. \<exists>b. f = Some b \<and> h \<notin> set (handle b)"
    and "handle a = hs1 @ h # hs2"
    and "h \<notin> set hs1" and "h \<notin> set hs2"
  shows "\<exists>p'. stop h p = Some p' \<and>
           sounds p' = pre @ Some (a\<lparr>handle := hs1 @ hs2\<rparr>) # post \<and>
           soloud p' = soloud p @ [Soloud_stop h] \<and>
           getSoundsCount p' = getSoundsCount p \<and>
           (\<forall>h'. h' \<noteq> h \<longrightarrow>
              map_option fst (findByHandle h' p') = map_option fst (findByHandle h' p))"
proof -
  let ?p' = "p\<lparr>soloud := soloud p @ [Soloud_stop h],
               sounds := (sounds p)[length pre := Some (a\<lparr>handle := hs1 @ hs2\<rparr>)]\<rparr>"
  have fnd: "findByHandle h p = Some (Some (length pre), int (length hs1))"
    using findByHandle_loop_first [OF assms(2,3,4), of post 0]
    by (simp add: findByHandle_def assms(1))
  have slot: "sounds p ! length pre = Some a"
    by (simp add: assms(1))
  have "\<forall>x\<in>set hs1. handle_is h x = Some False" "handle_is h h = Some True"
       "\<forall>x\<in>set hs2. handle_is h x = Some False"
    using assms(4,5) by (auto simp: handle_is_def)
  then have "erase_remove_if (handle_is h) (\<lambda>f. f) (hs1 @ h # hs2) = Some (hs1 @ hs2)"
    by (rule erase_remove_if_unique)
  then have run: "stop h p = Some ?p'"
    using fnd slot by (simp add: stop_def assms(3))
  have snd: "sounds ?p' = pre @ Some (a\<lparr>handle := hs1 @ hs2\<rparr>) # post"
    by (simp add: assms(1))
  have others: "map_option fst (findByHandle h' ?p') = map_option fst (findByHandle h' p)"
    if "h' \<noteq> h" for h'
  proof -
    have "findByHandle h' ?p' =
          findByHandle_loop h' (pre @ Some (a\<lparr>handle := hs1 @ hs2\<rparr>) # post) 0"
      by (simp only: findByHandle_def snd)
    moreover have "findByHandle h' p = findByHandle_loop h' (pre @ Some a # post) 0"
      by (simp only: findByHandle_def assms(1))
    ultimately show ?thesis
      using findByHandle_keeps_others [OF that assms(3)] by simp
  qed
  have "getSoundsCount ?p' = getSoundsCount p"
    by (simp add: getSoundsCount_def)
  with run snd others show ?thesis
    by (intro exI [of _ ?p']) simp
qed

text \<open>
  C3. Claim: for every registered sound and every handle \<open>h\<close> in its handle vector,
  \<open>stop h\<close> removes exactly the entry equal to \<open>h\<close> from that vector, the other
  entries stay in order and resolvable, the sound stays registered and the count is
  unchanged. This holds when the resolver reaches the sound (\<open>stop_removes_entry\<close>).
  After a refused load and a spoken text, the handle 5 that the engine gave to the speech
  sound is listed behind the empty slot: \<open>stop 5\<close> runs into that slot and dereferences
  the null pointer, and the entry is not removed.
\<close>

theorem stop_behind_empty_slot:
  "init noError Player_new = (noError, started) \<and>
   loadFile example_hash ''missing.wav'' 0 fileNotFound started =
     Some (fileNotFound, 8, failed_load) \<and>
   textToSpeech ''hello'' 0 noError 5 failed_load = (noError, 5, failed_load_speech) \<and>
   sounds failed_load_speech = [Some sound_missing, None, Some speech_5] \<and>
   handle speech_5 = [5] \<and>
   stop 5 failed_load_speech = None"
  by (simp add: init_def Player_new_def loadFile_def started_def example_hash_def hash_is_def
        textToSpeech_def failed_load_def failed_load_speech_def speech_5_def
        sound_missing_def make_ActiveSound_def stop_def findByHandle_def)

subsection \<open>Stopping a sound\<close>

text \<open>
  Let one slot hold a sound with the identity, and let every other slot hold a sound with
  another identity. Then \<open>stopSound\<close> removes that slot and keeps the others in order:
  the count is one less, \<open>getLength\<close> of the identity returns 0.0 afterwards, and a
  handle of the removed sound that no other sound lists no longer resolves. When every
  slot holds a sound with another identity, \<open>stopSound\<close> changes nothing.
\<close>

lemma stopSound_removes_sound:
  "(sounds p = pre @ Some a # post \<and> soundHash a = hash \<and>
    (\<forall>f\<in>set (pre @ post). hash_is hash f = Some False) \<longrightarrow>
      (\<exists>p'. stopSound hash p = Some p' \<and>
         sounds p' = pre @ post \<and>
         getSoundsCount p' = getSoundsCount p - 1 \<and>
         (\<forall>len. getLength hash len p' = Some (0, p')) \<and>
         (\<forall>h\<in>set (handle a).
            (\<forall>f\<in>set (pre @ post). \<exists>b. f = Some b \<and> h \<notin> set (handle b)) \<longrightarrow>
            findByHandle h p' = Some (None, - 1)))) \<and>
   ((\<forall>f\<in>set (sounds p). hash_is hash f = Some False) \<longrightarrow> stopSound hash p = Some p)"
proof (intro conjI impI)
  assume "\<forall>f\<in>set (sounds p). hash_is hash f = Some False"
  then have "find_if (hash_is hash) (sounds p) = Some (length (sounds p))"
    by (rule find_if_all_rejected)
  then show "stopSound hash p = Some p"
    by (simp add: stopSound_def)
next
  assume asm: "sounds p = pre @ Some a # post \<and> soundHash a = hash \<and>
    (\<forall>f\<in>set (pre @ post). hash_is hash f = Some False)"
  let ?p' = "p\<lparr>soloud := soloud p @ [Wav_stop (sound a)], sounds := pre @ post\<rparr>"
  from asm have snd: "sounds p = pre @ Some a # post" by simp
  from asm have pre: "\<forall>f\<in>set pre. hash_is hash f = Some False"
    and post: "\<forall>f\<in>set post. hash_is hash f = Some False" by simp_all
  from asm have a: "hash_is hash (Some a) = Some True" by (simp add: hash_is_def)
  have fnd: "find_if (hash_is hash) (sounds p) = Some (length pre)"
    unfolding snd using pre a by (rule find_if_first)
  have er: "erase_remove_if (hash_is hash) (\<lambda>f. None) (sounds p) = Some (pre @ post)"
    unfolding snd using pre a post by (rule erase_remove_if_unique)
  have run: "stopSound hash p = Some ?p'"
    using fnd er by (simp add: stopSound_def snd)
  have cnt: "getSoundsCount ?p' = getSoundsCount p - 1"
    by (simp add: getSoundsCount_def snd)
  have "find_if (hash_is hash) (sounds ?p') = Some (length (sounds ?p'))"
    using asm by (intro find_if_all_rejected) simp
  then have len: "getLength hash len ?p' = Some (0, ?p')" for len
    by (simp add: getLength_def)
  have res: "findByHandle h ?p' = Some (None, - 1)"
    if "\<forall>f\<in>set (pre @ post). \<exists>b. f = Some b \<and> h \<notin> set (handle b)" for h
    using findByHandle_loop_none [OF that, of 0] by (simp add: findByHandle_def)
  show "\<exists>p'. stopSound hash p = Some p' \<and>
         sounds p' = pre @ post \<and>
         getSoundsCount p' = getSoundsCount p - 1 \<and>
         (\<forall>len. getLength hash len p' = Some (0, p')) \<and>
         (\<forall>h\<in>set (handle a).
            (\<forall>f\<in>set (pre @ post). \<exists>b. f = Some b \<and> h \<notin> set (handle b)) \<longrightarrow>
            findByHandle h p' = Some (None, - 1))"
  proof (intro exI [of _ ?p'] conjI)
    show "stopSound hash p = Some ?p'" by (rule run)
    show "sounds ?p' = pre @ post" by simp
    show "getSoundsCount ?p' = getSoundsCount p - 1" by (rule cnt)
    show "\<forall>len. getLength hash len ?p' = Some (0, ?p')" using len by blast
    show "\<forall>h\<in>set (handle a).
            (\<forall>f\<in>set (pre @ post). \<exists>b. f = Some b \<and> h \<notin> set (handle b)) \<longrightarrow>
            findByHandle h ?p' = Some (None, - 1)"
      using res by blast
  qed
qed

text \<open>
  C4. Claim: for every registered identity, \<open>stopSound\<close> removes the sound with that
  identity entirely (the count is one less, its handles no longer resolve,
  \<open>getLength\<close> returns 0.0), and for an identity that no sound has it does nothing.
  This holds when every other slot holds a sound with another identity
  (\<open>stopSound_removes_sound\<close>). After a refused load the sound of \<open>missing.wav\<close> is
  registered with the identity 8 and an empty slot follows it: \<open>stopSound 8\<close> finds the
  sound, and \<open>remove_if\<close> then evaluates the predicate on the empty slot and dereferences
  the null pointer; \<open>stopSound 99\<close>, for an identity that no sound has, does the same.
  Furthermore \<open>textToSpeech\<close> never sets \<open>soundHash\<close>, so all its sounds have the
  identity 0, and \<open>erase\<close> is given one iterator: after two texts have been spoken,
  \<open>stopSound 0\<close> leaves a sound with the identity 0 registered and its handle 2
  resolvable.
\<close>

theorem stopSound_after_failed_load:
  "init noError Player_new = (noError, started) \<and>
   loadFile example_hash ''missing.wav'' 0 fileNotFound started =
     Some (fileNotFound, 8, failed_load) \<and>
   sounds failed_load = [Some sound_missing, None] \<and>
   soundHash sound_missing = 8 \<and>
   stopSound 8 failed_load = None \<and>
   stopSound 99 failed_load = None \<and>
   textToSpeech ''one'' 0 noError 1 started = (noError, 1, one_speech) \<and>
   textToSpeech ''two'' 0 noError 2 one_speech = (noError, 2, two_speeches) \<and>
   stopSound 0 two_speeches = Some speech_left \<and>
   sounds speech_left = [Some speech_2] \<and>
   soundHash speech_2 = 0 \<and>
   findByHandle 2 speech_left = Some (Some 0, 0)"
  by (simp add: init_def Player_new_def loadFile_def started_def example_hash_def
        failed_load_def sound_missing_def textToSpeech_def one_speech_def two_speeches_def
        speech_1_def speech_2_def speech_left_def make_ActiveSound_def stopSound_def
        hash_is_def erase_remove_if_def remove_if_def remove_if_loop.simps erase_def
        findByHandle_def)

subsection \<open>Before \<open>init\<close>\<close>

text \<open>
  C5, as claimed: every playback operation fails with \<open>backendNotInited\<close> before the
  engine has been started. Only \<open>loadFile\<close>, \<open>textToSpeech\<close> and \<open>seek\<close> test
  \<open>mInited\<close>. The other operations return a handle, a truth value, a length or nothing,
  not an error code: on the new player \<open>play\<close> returns the handle 0, \<open>getPause\<close>
  returns false, \<open>getLength\<close> returns 0.0, \<open>stop\<close>, \<open>stopSound\<close> and
  \<open>pauseSwitch\<close> do nothing, and \<open>setLooping\<close> and \<open>getPosition\<close> call the engine,
  \<open>getPosition\<close> returning what the engine answers.
\<close>

theorem not_inited_operations:
  "\<not> mInited Player_new \<and>
   play 7 1 0 False 5 Player_new = Some (0, Player_new) \<and>
   stop 5 Player_new = Some Player_new \<and>
   stopSound 7 Player_new = Some Player_new \<and>
   pauseSwitch 5 True Player_new = Some Player_new \<and>
   getPause 5 True Player_new = Some (False, Player_new) \<and>
   getLength 7 3 Player_new = Some (0, Player_new) \<and>
   setLooping 5 True Player_new = Player_new\<lparr>soloud := [Soloud_setLooping 5 True]\<rparr> \<and>
   getPosition 5 3 Player_new = (3, Player_new\<lparr>soloud := [Soloud_getStreamPosition 5]\<rparr>)"
  by (simp add: Player_new_def play_def stop_def stopSound_def pauseSwitch_def getPause_def
        getLength_def setLooping_def getPosition_def findByHandle_def)

text \<open>
  C5, amended. On a player that is not initialised, \<open>seek\<close>, \<open>textToSpeech\<close> and
  \<open>loadFile\<close> return \<open>backendNotInited\<close> and change nothing. The other operations do
  not test \<open>mInited\<close>: on the empty registry such a player has, \<open>play\<close> returns 0,
  \<open>getPause\<close> false and \<open>getLength\<close> 0.0, \<open>stop\<close>, \<open>stopSound\<close> and
  \<open>pauseSwitch\<close> leave the player as it is, and \<open>setLooping\<close> and \<open>getPosition\<close>
  are passed on to the engine.
\<close>

theorem not_inited_guards:
  assumes "\<not> mInited p"
  shows "seek h time seekResult p = (backendNotInited, p) \<and>
         textToSpeech txt hv setTextResult newHandle p = (backendNotInited, hv, p) \<and>
         loadFile hashfn fileName hash loadResult p = Some (backendNotInited, hash, p) \<and>
         (sounds p = [] \<longrightarrow>
            play hash' volume pan paused newHandle p = Some (0, p) \<and>
            stop h p = Some p \<and>
            stopSound hash' p = Some p \<and>
            pauseSwitch h enginePaused p = Some p \<and>
            getPause h enginePaused p = Some (False, p) \<and>
            getLength hash' len p = Some (0, p) \<and>
            setLooping h enable p = p\<lparr>soloud := soloud p @ [Soloud_setLooping h enable]\<rparr> \<and>
            getPosition h pos p = (pos, p\<lparr>soloud := soloud p @ [Soloud_getStreamPosition h]\<rparr>))"
  using assms
  by (simp add: seek_def textToSpeech_def loadFile_def play_def stop_def stopSound_def
        pauseSwitch_def getPause_def getLength_def setLooping_def getPosition_def
        findByHandle_def)

theorem not_inited_guards_witness:
  "\<not> mInited Player_new \<and> sounds Player_new = [] \<and>
   seek 5 2 noError Player_new = (backendNotInited, Player_new) \<and>
   textToSpeech ''hello'' 0 noError 5 Player_new = (backendNotInited, 0, Player_new) \<and>
   loadFile example_hash ''a.wav'' 0 noError Player_new = Some (backendNotInited, 0, Player_new) \<and>
   play 7 1 0 False 5 Player_new = Some (0, Player_new)"
proof -
  have n: "\<not> mInited Player_new" and e: "sounds Player_new = []"
    by (simp_all add: Player_new_def)
  from not_inited_guards [OF n, of 5 2 noError "''hello''" 0 noError 5 example_hash "''a.wav''"
      0 noError 7 1 0 False True 3 True 3] n e
  show ?thesis by simp
qed


end
